theory Spec2Isabelle
  imports Complex_Main
begin

section \<open>Errors raised by the interpreter and the array libraries\<close>

text \<open>
  The functions of \<^verbatim>\<open>diffusion_tools.py\<close> raise no exception of their own; every failure
  comes from Python's arithmetic, from numpy or from TensorFlow. A result is
  \<open>error + 'a\<close>, with \<open>Inl\<close> for the exception.
\<close>

datatype error = ZeroDivisionError | ValueError | InvalidArgumentError

section \<open>Floating-point numbers\<close>

text \<open>
  A Python \<^verbatim>\<open>float\<close> and a numpy \<^verbatim>\<open>float64\<close> are read as the real number they denote, and
  every arithmetic operation of the source is followed by a rounding \<open>r\<close>, a parameter of
  the model. Two roundings matter: \<open>exact\<close>, which rounds nothing (the arithmetic of the
  specification's formulas), and \<open>fl64\<close>, round-to-nearest-even onto 53 significant bits
  (the arithmetic of the machine). Infinities, NaN, signed zeros, overflow and subnormal
  numbers are outside the model.
\<close>

type_synonym rounding = "real \<Rightarrow> real"

definition exact :: rounding where
  "exact x = x"

definition round_half_even :: "real \<Rightarrow> int" where
  "round_half_even x =
     (let f = \<lfloor>x\<rfloor>; d = x - of_int f
      in if d < 1 / 2 then f
         else if 1 / 2 < d then f + 1
         else if even f then f else f + 1)"

definition binade :: "real \<Rightarrow> int" where
  \<comment> \<open>the exponent \<open>e\<close> with \<open>2 ^ e \<le> |x| < 2 ^ (e + 1)\<close>, for \<open>x \<noteq> 0\<close>\<close>
  "binade x = \<lfloor>log 2 \<bar>x\<bar>\<rfloor>"

definition fl :: "nat \<Rightarrow> rounding" where
  \<comment> \<open>round to nearest, ties to even, onto \<open>p\<close> significant bits\<close>
  "fl p x =
     (if x = 0 then 0
      else let u = 2 powi (binade x - (int p - 1))
           in of_int (round_half_even (x / u)) * u)"

definition fl64 :: rounding where
  "fl64 = fl 53"

definition fl32 :: rounding where
  "fl32 = fl 24"

section \<open>The numpy primitives of the schedules\<close>

definition np_arange :: "rounding \<Rightarrow> real \<Rightarrow> real \<Rightarrow> real \<Rightarrow> error + real list" where
  \<comment> \<open>\<^verbatim>\<open>np.arange(start, stop, step)\<close> on floats: the length is
      \<open>ceil((stop - start) / step)\<close> computed in floating point, element 0 is \<open>start\<close>,
      element 1 is \<open>start + step\<close>, and element \<open>i\<close> is \<open>start + i * delta\<close> with
      \<open>delta\<close> the difference of the first two elements. A zero step divides by zero.\<close>
  "np_arange r start stop step =
     (if step = 0 then Inl ZeroDivisionError
      else let len = nat \<lceil>r (r (stop - start) / step)\<rceil>;
               nxt = r (start + step);
               delta = r (nxt - start)
           in Inr (map (\<lambda>i. if i = 0 then start
                             else if i = 1 then nxt
                             else r (start + r (real i * delta))) [0..<len]))"

fun cumprod_from :: "rounding \<Rightarrow> real \<Rightarrow> real list \<Rightarrow> real list" where
  "cumprod_from r acc [] = []"
| "cumprod_from r acc (x # xs) = r (acc * x) # cumprod_from r (r (acc * x)) xs"

fun np_cumprod :: "rounding \<Rightarrow> real list \<Rightarrow> real list" where
  "np_cumprod r [] = []"
| "np_cumprod r (x # xs) = x # cumprod_from r x xs"

section \<open>The noise schedules\<close>

text \<open>
  \<open>nsteps\<close> is a Python \<^verbatim>\<open>int\<close>; dividing a float by the integer zero raises
  \<^verbatim>\<open>ZeroDivisionError\<close> before numpy is called.
\<close>

definition py_div :: "rounding \<Rightarrow> real \<Rightarrow> int \<Rightarrow> error + real" where
  "py_div r x n = (if n = 0 then Inl ZeroDivisionError else Inr (r (x / of_int n)))"

definition compute_beta_alpha ::
  "rounding \<Rightarrow> int \<Rightarrow> real \<Rightarrow> real \<Rightarrow> real \<Rightarrow> real \<Rightarrow> error + (real list \<times> real list \<times> real list)" where
  "compute_beta_alpha r nsteps beta_start beta_end gamma_start gamma_end =
     (case py_div r (r (beta_end - beta_start)) nsteps of
        Inl e \<Rightarrow> Inl e
      | Inr bstep \<Rightarrow>
         (case np_arange r beta_start beta_end bstep of
            Inl e \<Rightarrow> Inl e
          | Inr beta \<Rightarrow>
             (case py_div r (r (gamma_end - gamma_start)) nsteps of
                Inl e \<Rightarrow> Inl e
              | Inr gstep \<Rightarrow>
                 (case np_arange r gamma_start gamma_end gstep of
                    Inl e \<Rightarrow> Inl e
                  | Inr sigma \<Rightarrow>
                      Inr (beta, np_cumprod r (map (\<lambda>b. r (1 - b)) beta), sigma)))))"

definition compute_beta_alpha2 ::
  "rounding \<Rightarrow> int \<Rightarrow> real \<Rightarrow> real \<Rightarrow> real \<Rightarrow> real \<Rightarrow> error + (real list \<times> real list \<times> real list)" where
  "compute_beta_alpha2 r nsteps beta_start beta_end gamma_start gamma_end =
     (case py_div r 1 nsteps of
        Inl e \<Rightarrow> Inl e
      | Inr ustep \<Rightarrow>
         (case np_arange r 0 1 ustep of
            Inl e \<Rightarrow> Inl e
          | Inr u \<Rightarrow>
             (let t = map (\<lambda>x. r (r (r pi / 2) * x)) u;
                  beta = map (\<lambda>x. r (r (r (sin x) * r (beta_end - beta_start)) + beta_start)) t
              in case py_div r (r (gamma_end - gamma_start)) nsteps of
                   Inl e \<Rightarrow> Inl e
                 | Inr gstep \<Rightarrow>
                    (case np_arange r gamma_start gamma_end gstep of
                       Inl e \<Rightarrow> Inl e
                     | Inr sigma \<Rightarrow>
                         Inr (beta, np_cumprod r (map (\<lambda>b. r (1 - b)) beta), sigma)))))"

definition schedule_lengths ::
  "error + (real list \<times> real list \<times> real list) \<Rightarrow> error + (nat \<times> nat \<times> nat)" where
  \<comment> \<open>what \<^verbatim>\<open>len\<close> reports on the three arrays of a returned triple\<close>
  "schedule_lengths res =
     (case res of
        Inl e \<Rightarrow> Inl e
      | Inr (beta, alpha, sigma) \<Rightarrow> Inr (length beta, length alpha, length sigma))"

section \<open>Arrays and the image range converter\<close>

text \<open>
  An n-dimensional array is its shape and its elements in row-major order. numpy's
  operators return freshly allocated arrays; to observe that, arrays live in a heap (a list,
  addressed by position) and a Python variable holds an address.
\<close>

record 'a ndarray =
  shape :: "nat list"
  data :: "'a list"






section \<open>The position encoder\<close>

subsection \<open>Construction of the table\<close>

definition np_arange_int :: "int \<Rightarrow> int list" where
  \<comment> \<open>\<^verbatim>\<open>np.arange(n)\<close> for an integer \<open>n\<close>: empty when \<open>n \<le> 0\<close>\<close>
  "np_arange_int n = map int [0..<nat n]"

definition np_meshgrid :: "int list \<Rightarrow> int list \<Rightarrow> int list list \<times> int list list" where
  \<comment> \<open>the default \<^verbatim>\<open>indexing='xy'\<close>: both results have \<open>length ys\<close> rows of \<open>length xs\<close> entries\<close>
  "np_meshgrid xs ys = (map (\<lambda>y. xs) ys, map (\<lambda>y. map (\<lambda>x. y) xs) ys)"

definition np_empty :: "(nat \<Rightarrow> nat \<Rightarrow> real) \<Rightarrow> int \<Rightarrow> int \<Rightarrow> error + real list list" where
  \<comment> \<open>\<^verbatim>\<open>np.empty((rows, cols))\<close>: the cells hold whatever the memory \<open>mem\<close> held;
      a negative dimension is rejected\<close>
  "np_empty mem rows cols =
     (if rows < 0 \<or> cols < 0 then Inl ValueError
      else Inr (map (\<lambda>t. map (mem t) [0..<nat cols]) [0..<nat rows]))"

definition np_T :: "nat \<Rightarrow> nat \<Rightarrow> 'a list list \<Rightarrow> 'a list list" where
  \<comment> \<open>\<^verbatim>\<open>.T\<close> of a matrix of \<open>rows\<close> rows and \<open>cols\<close> columns\<close>
  "np_T rows cols m = map (\<lambda>c. map (\<lambda>k. m ! k ! c) [0..<rows]) [0..<cols]"

fun set_stride :: "nat \<Rightarrow> 'a list \<Rightarrow> 'a list \<Rightarrow> 'a list" where
  \<comment> \<open>\<^verbatim>\<open>row[off::2] = vals\<close>\<close>
  "set_stride off [] row = row"
| "set_stride off (v # vs) row = set_stride (off + 2) vs (row[off := v])"

definition assign_cols :: "nat \<Rightarrow> 'a list list \<Rightarrow> 'a list list \<Rightarrow> 'a list list" where
  \<comment> \<open>\<^verbatim>\<open>dst[:, off::2] = src\<close>, row by row\<close>
  "assign_cols off src dst = map (\<lambda>(vals, row). set_stride off vals row) (zip src dst)"

definition angle :: "rounding \<Rightarrow> int \<Rightarrow> int \<Rightarrow> int \<Rightarrow> real" where
  \<comment> \<open>one element of \<^verbatim>\<open>p / 10000**(2 * i / max_dims)\<close>\<close>
  "angle r D p i = r (of_int p / r (10000 powr r (of_int (2 * i) / of_int D)))"

record PositionEncoder =
  positional_embedding :: "real ndarray"
  max_steps :: int
  max_dims :: int

definition PositionEncoder_init ::
  "rounding \<Rightarrow> (nat \<Rightarrow> nat \<Rightarrow> real) \<Rightarrow> int \<Rightarrow> int \<Rightarrow> rounding \<Rightarrow> error + PositionEncoder" where
  \<comment> \<open>\<open>r\<close> rounds the 64-bit computation, \<open>dtype\<close> is the cast of \<^verbatim>\<open>astype(self.dtype)\<close>\<close>
  "PositionEncoder_init r mem max_steps0 max_dims0 dtype =
     (let max_dims1 = (if max_dims0 mod 2 = 1 then max_dims0 + 1 else max_dims0);
          (p, i) = np_meshgrid (np_arange_int max_steps0) (np_arange_int (max_dims1 div 2))
      in case np_empty mem max_steps0 max_dims1 of
           Inl e \<Rightarrow> Inl e
         | Inr pos_emb0 \<Rightarrow>
            (let ang = map (\<lambda>(ps, is). map (\<lambda>(pv, iv). angle r max_dims1 pv iv) (zip ps is)) (zip p i);
                 half = nat (max_dims1 div 2);
                 rows = nat max_steps0;
                 pos_emb1 = assign_cols 0 (np_T half rows (map (map (\<lambda>a. r (sin a))) ang)) pos_emb0;
                 pos_emb2 = assign_cols 1 (np_T half rows (map (map (\<lambda>a. r (cos a))) ang)) pos_emb1
             in Inr \<lparr>positional_embedding =
                       \<lparr>shape = [nat max_steps0, nat max_dims1],
                        data = concat (map (map dtype) pos_emb2)\<rparr>,
                     max_steps = max_steps0,
                     max_dims = max_dims1\<rparr>))"

subsection \<open>Lookup\<close>

text \<open>
  \<^verbatim>\<open>tf.gather_nd(params, indices)\<close>: the last axis of \<open>indices\<close>, of size \<open>K\<close>, holds index
  tuples into the first \<open>K\<close> axes of \<open>params\<close>; the result has the remaining axes of
  \<open>indices\<close> followed by the remaining axes of \<open>params\<close>. TensorFlow documents the treatment
  of a tuple out of bounds by device: on CPU the operation fails, on GPU the slice is
  filled with zeros.
\<close>

datatype device = CPU | GPU

definition in_bounds :: "int list \<Rightarrow> nat list \<Rightarrow> bool" where
  "in_bounds ix dims = list_all2 (\<lambda>i d. 0 \<le> i \<and> i < int d) ix dims"

definition flat_index :: "int list \<Rightarrow> nat list \<Rightarrow> nat" where
  "flat_index ix dims = foldl (\<lambda>acc (i, d). acc * d + nat i) 0 (zip ix dims)"

definition gather_nd :: "device \<Rightarrow> real ndarray \<Rightarrow> int ndarray \<Rightarrow> error + real ndarray" where
  "gather_nd dev params indices =
     (case rev (shape indices) of
        [] \<Rightarrow> Inl InvalidArgumentError
      | K # outer_rev \<Rightarrow>
         if shape params = [] \<or> length (shape params) < K then Inl InvalidArgumentError
         else let dims = take K (shape params);
                  slice_shape = drop K (shape params);
                  slice_size = prod_list slice_shape;
                  tuples = map (\<lambda>j. take K (drop (j * K) (data indices)))
                             [0..<prod_list (rev outer_rev)]
              in if dev = CPU \<and> list_ex (\<lambda>ix. \<not> in_bounds ix dims) tuples
                 then Inl InvalidArgumentError
                 else Inr \<lparr>shape = rev outer_rev @ slice_shape,
                           data = concat (map (\<lambda>ix.
                                    if in_bounds ix dims
                                    then take slice_size (drop (flat_index ix dims * slice_size) (data params))
                                    else replicate slice_size 0) tuples)\<rparr>)"

definition call :: "device \<Rightarrow> PositionEncoder \<Rightarrow> int ndarray \<Rightarrow> error + real ndarray" where
  "call dev self indices = gather_nd dev (positional_embedding self) indices"

definition embedding :: "PositionEncoder \<Rightarrow> real ndarray" where
  "embedding self = positional_embedding self"

section \<open>The specification's vocabulary\<close>




definition adjusted_dims :: "int \<Rightarrow> int" where
  \<comment> \<open>the requested dimensionality, rounded up to the next even number\<close>
  "adjusted_dims max_dims0 = (if even max_dims0 then max_dims0 else max_dims0 + 1)"

definition table_entry :: "rounding \<Rightarrow> rounding \<Rightarrow> int \<Rightarrow> nat \<Rightarrow> nat \<Rightarrow> real" where
  \<comment> \<open>row \<open>t\<close>, column \<open>c\<close> of the table: a sine in the even columns, a cosine in the odd ones\<close>
  "table_entry r dtype D t c =
     (if even c then dtype (r (sin (angle r D (int t) (int (c div 2)))))
      else dtype (r (cos (angle r D (int t) (int (c div 2))))))"

definition cell :: "'a ndarray \<Rightarrow> nat \<Rightarrow> nat \<Rightarrow> 'a" where
  \<comment> \<open>\<open>a[t, c]\<close> of a matrix\<close>
  "cell a t c = data a ! (t * (shape a ! 1) + c)"

definition table_row :: "'a ndarray \<Rightarrow> nat \<Rightarrow> 'a list" where
  \<comment> \<open>\<open>a[t, :]\<close> of a matrix\<close>
  "table_row a t = take (shape a ! 1) (drop (t * (shape a ! 1)) (data a))"

definition zero_mem :: "nat \<Rightarrow> nat \<Rightarrow> real" where
  \<comment> \<open>a memory that held zeros, for the closed examples\<close>
  "zero_mem t c = 0"

definition StepEncoder_embed :: "device \<Rightarrow> int \<Rightarrow> int \<Rightarrow> int ndarray \<Rightarrow> error + real ndarray" where
  \<comment> \<open>\<^verbatim>\<open>PositionEncoder(max_steps, max_dims)(indices)\<close> on the machine: binary64 arithmetic,
      the default dtype\<close>
  "StepEncoder_embed dev max_steps0 max_dims0 indices =
     (case PositionEncoder_init fl64 zero_mem max_steps0 max_dims0 fl32 of
        Inl e \<Rightarrow> Inl e
      | Inr self \<Rightarrow> call dev self indices)"

section \<open>Lemmas on rounding and on the numpy primitives\<close>

lemma length_cumprod_from: "length (cumprod_from r acc xs) = length xs"
  by (induction xs arbitrary: acc) auto

lemma length_np_cumprod: "length (np_cumprod r xs) = length xs"
  by (cases xs) (auto simp: length_cumprod_from)

lemma binade_eqI:
  assumes "2 powi e \<le> \<bar>x\<bar>" "\<bar>x\<bar> < 2 powi (e + 1)"
  shows "binade x = e"
proof -
  have "0 < (2::real) powi e" by (simp add: zero_less_power_int)
  with assms(1) have pos: "0 < \<bar>x\<bar>" by linarith
  have "2 powr real_of_int e = 2 powi e" "2 powr real_of_int (e + 1) = 2 powi (e + 1)"
    using powr_real_of_int'[of "2::real" e] powr_real_of_int'[of "2::real" "e + 1"] by simp_all
  then have "2 powr real_of_int e \<le> \<bar>x\<bar> \<and> \<bar>x\<bar> < 2 powr real_of_int (e + 1)"
    using assms by (simp only:)
  then show ?thesis
    unfolding binade_def using floor_log_eq_powr_iff[OF pos, of 2 e] by simp
qed

lemma fl64_eval:
  assumes "2 powi e \<le> \<bar>x\<bar>" "\<bar>x\<bar> < 2 powi (e + 1)"
  shows "fl64 x = of_int (round_half_even (x / 2 powi (e - 52))) * 2 powi (e - 52)"
proof -
  have "0 < (2::real) powi e" by (simp add: zero_less_power_int)
  with assms(1) have "0 < \<bar>x\<bar>" by linarith
  then have "x \<noteq> 0" by simp
  then show ?thesis
    by (simp add: fl64_def fl_def Let_def binade_eqI[OF assms])
qed

lemmas fl64_calc = round_half_even_def power_int_minus

lemma py_div_numeral: "py_div r x (numeral k) = Inr (r (x / numeral k))"
  by (simp add: py_div_def)

lemma np_arange_length:
  "step \<noteq> 0 \<Longrightarrow> \<exists>xs. np_arange r a b step = Inr xs \<and> length xs = nat \<lceil>r (r (b - a) / step)\<rceil>"
  by (simp add: np_arange_def Let_def)

lemma compute_beta_alpha2_parts:
  assumes "py_div r 1 n = Inr ustep" "np_arange r 0 1 ustep = Inr u"
    "py_div r (r (ge - gs)) n = Inr gstep" "np_arange r gs ge gstep = Inr sigma"
  shows "schedule_lengths (compute_beta_alpha2 r n bs be gs ge) = Inr (length u, length u, length sigma)"
  using assms by (simp add: compute_beta_alpha2_def schedule_lengths_def Let_def length_np_cumprod)

lemma compute_beta_alpha_parts:
  assumes "py_div r (r (be - bs)) n = Inr bstep" "np_arange r bs be bstep = Inr beta"
    "py_div r (r (ge - gs)) n = Inr gstep" "np_arange r gs ge gstep = Inr sigma"
  shows "schedule_lengths (compute_beta_alpha r n bs be gs ge) = Inr (length beta, length beta, length sigma)"
  using assms by (simp add: compute_beta_alpha_def schedule_lengths_def Let_def length_np_cumprod)

subsection \<open>Values of the binary64 rounding\<close>

lemma fl64_1: "fl64 (1 - 0) = 1"
  by (subst fl64_eval[where e = 0]) (simp_all add: fl64_calc)

lemma fl64_ustep: "fl64 (1 / 49) = 5882252574524729 / 2 ^ 58"
  by (subst fl64_eval[where e = "-6"]) (simp_all add: fl64_calc)

lemma fl64_uquot: "fl64 (1 / (5882252574524729 / 2 ^ 58)) = 6896136929411073 / 2 ^ 47"
  by (subst fl64_eval[where e = 5]) (simp_all add: fl64_calc)

lemma fl64_gamma_end: "fl64 (1 / 10) = 3602879701896397 / 2 ^ 55"
  by (subst fl64_eval[where e = "-4"]) (simp_all add: fl64_calc)

lemma fl64_gamma_diff: "fl64 (3602879701896397 / 2 ^ 55 - 0) = 3602879701896397 / 2 ^ 55"
  by (subst fl64_eval[where e = "-4"]) (simp_all add: fl64_calc)

lemma fl64_gstep49: "fl64 (3602879701896397 / 2 ^ 55 / 49) = 588225257452473 / 2 ^ 58"
  by (subst fl64_eval[where e = "-9"]) (simp_all add: fl64_calc)

lemma fl64_gquot49: "fl64 (3602879701896397 / 2 ^ 55 / (588225257452473 / 2 ^ 58)) = 49"
  by (subst fl64_eval[where e = 5]) (simp_all add: fl64_calc)

lemma fl64_gstep99: "fl64 (3602879701896397 / 2 ^ 55 / 99) = 2329134352741105 / 2 ^ 61"
  by (subst fl64_eval[where e = "-10"]) (simp_all add: fl64_calc)

lemma fl64_gquot99: "fl64 (3602879701896397 / 2 ^ 55 / (2329134352741105 / 2 ^ 61)) = 99"
  by (subst fl64_eval[where e = 6]) (simp_all add: fl64_calc)

lemma fl64_beta_start: "fl64 (1 / 10000) = 7378697629483821 / 2 ^ 66"
  by (subst fl64_eval[where e = "-14"]) (simp_all add: fl64_calc)

lemma fl64_beta_end: "fl64 (1 / 5) = 3602879701896397 / 2 ^ 54"
  by (subst fl64_eval[where e = "-3"]) (simp_all add: fl64_calc)

lemma fl64_beta_diff:
  "fl64 (3602879701896397 / 2 ^ 54 - 7378697629483821 / 2 ^ 66) = 3601078262045449 / 2 ^ 54"
  by (subst fl64_eval[where e = "-3"]) (simp_all add: fl64_calc)

lemma fl64_bstep99: "fl64 (3601078262045449 / 2 ^ 54 / 99) = 4655939571129469 / 2 ^ 61"
  by (subst fl64_eval[where e = "-9"]) (simp_all add: fl64_calc)

lemma fl64_bquot99:
  "fl64 (3601078262045449 / 2 ^ 54 / (4655939571129469 / 2 ^ 61)) = 6966505673588737 / 2 ^ 46"
  by (subst fl64_eval[where e = 6]) (simp_all add: fl64_calc)

lemma ceiling_uquot: "nat \<lceil>(6896136929411073::real) / 2 ^ 47\<rceil> = 50"
  by simp

lemma ceiling_bquot: "nat \<lceil>(6966505673588737::real) / 2 ^ 46\<rceil> = 100"
  by simp

subsection \<open>Dyadic values, which binary64 represents exactly\<close>

lemma fl64_0: "fl64 0 = 0"
  by (simp add: fl64_def fl_def)










lemma fl64_one: "fl64 1 = 1"
  by (subst fl64_eval[where e = 0]) (simp_all add: fl64_calc)







subsection \<open>The cast to 32 bits, and the sine of 1\<close>

lemma fl32_eval:
  assumes "2 powi e \<le> \<bar>x\<bar>" "\<bar>x\<bar> < 2 powi (e + 1)"
  shows "fl32 x = of_int (round_half_even (x / 2 powi (e - 23))) * 2 powi (e - 23)"
proof -
  have "0 < (2::real) powi e" by (simp add: zero_less_power_int)
  with assms(1) have "0 < \<bar>x\<bar>" by linarith
  then have "x \<noteq> 0" by simp
  then show ?thesis
    by (simp add: fl32_def fl_def Let_def binade_eqI[OF assms])
qed

lemma fl32_0: "fl32 0 = 0"
  by (simp add: fl32_def fl_def)

lemma fl32_one: "fl32 1 = 1"
  by (subst fl32_eval[where e = 0]) (simp_all add: fl64_calc)

lemma round_half_even_near:
  assumes "of_int k - 1 / 2 < y" "y < of_int k + 1 / 2"
  shows "round_half_even y = k"
proof -
  have f: "\<lfloor>y\<rfloor> = k - 1 \<or> \<lfloor>y\<rfloor> = k"
    using assms by linarith
  then show ?thesis
  proof
    assume a: "\<lfloor>y\<rfloor> = k - 1"
    then have "1 / 2 < y - of_int \<lfloor>y\<rfloor>" using assms by simp
    then show ?thesis unfolding round_half_even_def Let_def using a by simp
  next
    assume a: "\<lfloor>y\<rfloor> = k"
    then have "y - of_int \<lfloor>y\<rfloor> < 1 / 2" using assms by simp
    then show ?thesis unfolding round_half_even_def Let_def using a by simp
  qed
qed

lemma sin_1_partial_sum:
  "(\<Sum>m<20. sin_coeff m * (1::real) ^ m) = 102360822438075317 / 121645100408832000"
  by (simp add: sin_coeff_def lessThan_nat_numeral lessThan_Suc fact_numeral)

lemma sin_1_bounds:
  "102360822438075317 / 121645100408832000 - 1 / 2432902008176640000 \<le> sin (1::real)"
  "sin (1::real) \<le> 102360822438075317 / 121645100408832000 + 1 / 2432902008176640000"
proof -
  have f: "inverse (fact 20 :: real) = 1 / 2432902008176640000"
    by (simp add: fact_numeral)
  have "\<bar>sin (1::real) - (\<Sum>m<20. sin_coeff m * 1 ^ m)\<bar> \<le> inverse (fact 20) * \<bar>1\<bar> ^ 20"
    by (rule Maclaurin_sin_bound)
  then have b: "\<bar>sin (1::real) - 102360822438075317 / 121645100408832000\<bar> \<le> 1 / 2432902008176640000"
    unfolding sin_1_partial_sum f by simp
  from b show "102360822438075317 / 121645100408832000 - 1 / 2432902008176640000 \<le> sin (1::real)"
    by linarith
  from b show "sin (1::real) \<le> 102360822438075317 / 121645100408832000 + 1 / 2432902008176640000"
    by linarith
qed

lemma fl64_sin_1: "fl64 (sin 1) = 7579296827247854 / 2 ^ 53"
proof -
  note b = sin_1_bounds
  have lo: "2 powi (- 1) \<le> \<bar>sin (1::real)\<bar>" using b(1) by (simp add: power_int_minus)
  have hi: "\<bar>sin (1::real)\<bar> < 2 powi (- 1 + 1)" using b by simp
  have "round_half_even (sin 1 / 2 powi (- 1 - 52)) = 7579296827247854"
  proof (rule round_half_even_near)
    show "real_of_int 7579296827247854 - 1 / 2 < sin 1 / 2 powi (- 1 - 52)"
      using b(1) by (simp add: power_int_minus field_simps)
    show "sin 1 / 2 powi (- 1 - 52) < real_of_int 7579296827247854 + 1 / 2"
      using b(2) by (simp add: power_int_minus field_simps)
  qed
  then show ?thesis
    unfolding fl64_eval[OF lo hi] by (simp add: power_int_minus)
qed

lemma fl32_of_fl64_sin_1: "fl32 (7579296827247854 / 2 ^ 53) = 14117540 / 2 ^ 24"
  by (subst fl32_eval[where e = "-1"]) (simp_all add: fl64_calc)

section \<open>The schedules in exact arithmetic\<close>

lemma np_arange_exact:
  "s \<noteq> 0 \<Longrightarrow> np_arange exact a b s = Inr (map (\<lambda>i. a + real i * s) [0..<nat \<lceil>(b - a) / s\<rceil>])"
  by (auto simp: np_arange_def exact_def Let_def)

lemma exact_length:
  assumes "0 < n" "a \<noteq> b"
  shows "nat \<lceil>(b - a) / ((b - a) / real_of_int n)\<rceil> = nat n"
proof -
  have "(b - a) / ((b - a) / real_of_int n) = real_of_int n"
    using assms by simp
  then show ?thesis by simp
qed

lemma arange_span_exact:
  assumes "0 < n" "a \<noteq> b"
  shows "np_arange exact a b (exact (exact (b - a) / real_of_int n))
           = Inr (map (\<lambda>i. a + real i * ((b - a) / real_of_int n)) [0..<nat n])"
proof -
  have "(b - a) / real_of_int n \<noteq> 0" using assms by simp
  from np_arange_exact[OF this, of a b] show ?thesis
    unfolding exact_length[OF assms] exact_def .
qed

lemma py_div_nonzero: "n \<noteq> 0 \<Longrightarrow> py_div r x n = Inr (r (x / real_of_int n))"
  by (simp add: py_div_def)

lemma compute_beta_alpha_exact:
  assumes "0 < n" "bs \<noteq> be" "gs \<noteq> ge"
  defines "beta \<equiv> map (\<lambda>t. bs + real t * ((be - bs) / real_of_int n)) [0..<nat n]"
  shows "compute_beta_alpha exact n bs be gs ge =
     Inr (beta, np_cumprod exact (map (\<lambda>b. exact (1 - b)) beta),
          map (\<lambda>t. gs + real t * ((ge - gs) / real_of_int n)) [0..<nat n])"
proof -
  have n: "n \<noteq> 0" using assms(1) by simp
  show ?thesis
    by (simp only: compute_beta_alpha_def py_div_nonzero[OF n] sum.case beta_def
        arange_span_exact[OF assms(1,2)] arange_span_exact[OF assms(1,3)])
qed

lemma compute_beta_alpha2_exact:
  fixes bs be :: real
  assumes "0 < n" "gs \<noteq> ge"
  defines "beta \<equiv> map (\<lambda>t. sin (pi / 2 * (real t / real_of_int n)) * (be - bs) + bs) [0..<nat n]"
  shows "compute_beta_alpha2 exact n bs be gs ge =
     Inr (beta, np_cumprod exact (map (\<lambda>b. exact (1 - b)) beta),
          map (\<lambda>t. gs + real t * ((ge - gs) / real_of_int n)) [0..<nat n])"
proof -
  have n: "n \<noteq> 0" using assms(1) by simp
  have u: "np_arange exact 0 1 (exact (1 / real_of_int n))
             = Inr (map (\<lambda>i. 0 + real i * ((1 - 0) / real_of_int n)) [0..<nat n])"
    using arange_span_exact[OF assms(1), of 0 1] by (simp add: exact_def)
  have b: "map (\<lambda>x. exact (exact (exact (sin x) * exact (be - bs)) + bs))
             (map (\<lambda>x. exact (exact (exact pi / 2) * x))
               (map (\<lambda>i. 0 + real i * ((1 - 0) / real_of_int n)) [0..<nat n])) = beta"
    by (simp add: beta_def exact_def comp_def mult.commute)
  show ?thesis
    by (simp only: compute_beta_alpha2_def py_div_nonzero[OF n] sum.case u Let_def b
        arange_span_exact[OF assms(1,2)])
qed











section \<open>Lemmas on arrays, the table and the lookup\<close>



lemma length_set_stride: "length (set_stride off vs row) = length row"
  by (induction vs arbitrary: off row) auto

lemma set_stride_nth:
  "c < length row \<Longrightarrow>
   set_stride off vs row ! c =
     (if off \<le> c \<and> even (c - off) \<and> (c - off) div 2 < length vs
      then vs ! ((c - off) div 2) else row ! c)"
proof (induction vs arbitrary: off row)
  case Nil
  then show ?case by simp
next
  case (Cons v vs)
  have len: "c < length (row[off := v])" using Cons.prems by simp
  consider "c < off" | "c = off" | "c = Suc off" | "off + 2 \<le> c" by linarith
  then show ?case
  proof cases
    case 1
    then show ?thesis using Cons.IH[OF len, of "off + 2"] by simp
  next
    case 2
    then show ?thesis using Cons.IH[OF len, of "off + 2"] Cons.prems by simp
  next
    case 3
    then show ?thesis using Cons.IH[OF len, of "off + 2"] by simp
  next
    case 4
    then obtain d where d: "c = off + 2 + d" by (metis le_Suc_ex)
    have "(2 + d) div 2 = Suc (d div 2)" by simp
    then show ?thesis using Cons.IH[OF len, of "off + 2"] d by (simp add: nth_Cons')
  qed
qed

lemma zip_same_map: "zip (map f xs) (map g xs) = map (\<lambda>x. (f x, g x)) xs"
  by (induction xs) auto

lemma meshgrid_angles:
  "(case np_meshgrid (np_arange_int ms) (np_arange_int half) of
      (p, i) \<Rightarrow> map (\<lambda>(ps, is). map (\<lambda>(pv, iv). angle r D pv iv) (zip ps is)) (zip p i))
   = map (\<lambda>a. map (\<lambda>t. angle r D (int t) (int a)) [0..<nat ms]) [0..<nat half]"
  by (simp add: np_meshgrid_def np_arange_int_def zip_same_map comp_def)

lemma np_T_table:
  "np_T rows cols (map (\<lambda>a. map (\<lambda>t. f t a) [0..<cols]) [0..<rows])
     = map (\<lambda>t. map (\<lambda>a. f t a) [0..<rows]) [0..<cols]"
  by (simp add: np_T_def)

lemma assign_cols_table:
  "assign_cols off (map S [0..<n]) (map R [0..<n]) = map (\<lambda>t. set_stride off (S t) (R t)) [0..<n]"
  by (simp add: assign_cols_def zip_same_map)

lemma interleave_row:
  assumes "length S = half" "length C = half" "length R = 2 * half"
  shows "set_stride 1 C (set_stride 0 S R)
           = map (\<lambda>c. if even c then S ! (c div 2) else C ! (c div 2)) [0..<2 * half]"
proof (rule nth_equalityI)
  show "length (set_stride 1 C (set_stride 0 S R))
          = length (map (\<lambda>c. if even c then S ! (c div 2) else C ! (c div 2)) [0..<2 * half])"
    by (simp add: length_set_stride assms)
next
  fix c assume "c < length (set_stride 1 C (set_stride 0 S R))"
  then have c: "c < 2 * half" by (simp add: length_set_stride assms)
  then have h: "c div 2 < half" by simp
  have in0: "c < length R" using c assms by simp
  have in1: "c < length (set_stride 0 S R)" using c assms by (simp add: length_set_stride)
  show "set_stride 1 C (set_stride 0 S R) ! c
          = map (\<lambda>c. if even c then S ! (c div 2) else C ! (c div 2)) [0..<2 * half] ! c"
  proof (cases "even c")
    case True
    then have "\<not> (1 \<le> c \<and> even (c - 1))" by auto
    then show ?thesis
      using True c h assms by (auto simp: set_stride_nth[OF in1] set_stride_nth[OF in0])
  next
    case False
    then have "1 \<le> c" "even (c - 1)" "(c - 1) div 2 = c div 2"
      by (auto elim: oddE)
    then show ?thesis
      using False c h assms by (simp add: set_stride_nth[OF in1])
  qed
qed

lemma PositionEncoder_init_table:
  fixes md :: int
  defines "D \<equiv> (if md mod 2 = 1 then md + 1 else md)"
  assumes "0 \<le> ms" "0 \<le> D"
  shows "PositionEncoder_init r mem ms md dtype =
           Inr \<lparr>positional_embedding =
                 \<lparr>shape = [nat ms, nat D],
                  data = concat (map (\<lambda>t. map (table_entry r dtype D t) [0..<nat D]) [0..<nat ms])\<rparr>,
               max_steps = ms, max_dims = D\<rparr>"
proof -
  define rows where "rows = nat ms"
  define half where "half = nat (D div 2)"
  define S where "S t = map (\<lambda>a. r (sin (angle r D (int t) (int a)))) [0..<half]" for t
  define C where "C t = map (\<lambda>a. r (cos (angle r D (int t) (int a)))) [0..<half]" for t
  define R where "R t = map (mem t) [0..<nat D]" for t
  have D0: "0 \<le> D" by fact
  have Deven: "even D"
    unfolding D_def by presburger
  have natD: "nat D = 2 * half"
    using D0 Deven unfolding half_def by (auto elim!: evenE simp: nat_mult_distrib)
  have emp: "np_empty mem ms D = Inr (map R [0..<rows])"
    using assms(2) D0 by (simp add: np_empty_def R_def rows_def)
  have mesh: "np_meshgrid (np_arange_int ms) (np_arange_int (D div 2)) =
                (map (\<lambda>a. map int [0..<rows]) [0..<half],
                 map (\<lambda>a. map (\<lambda>t. int a) [0..<rows]) [0..<half])"
    by (simp add: np_meshgrid_def np_arange_int_def rows_def half_def comp_def)
  have ang: "map (\<lambda>(ps, is). map (\<lambda>(pv, iv). angle r D pv iv) (zip ps is))
               (zip (map (\<lambda>a. map int [0..<rows]) [0..<half])
                    (map (\<lambda>a. map (\<lambda>t. int a) [0..<rows]) [0..<half]))
             = map (\<lambda>a. map (\<lambda>t. angle r D (int t) (int a)) [0..<rows]) [0..<half]"
    by (simp add: zip_same_map comp_def)
  have sinT: "np_T half rows (map (map (\<lambda>a. r (sin a)))
                (map (\<lambda>a. map (\<lambda>t. angle r D (int t) (int a)) [0..<rows]) [0..<half]))
              = map S [0..<rows]"
    by (simp add: np_T_def S_def comp_def)
  have cosT: "np_T half rows (map (map (\<lambda>a. r (cos a)))
                (map (\<lambda>a. map (\<lambda>t. angle r D (int t) (int a)) [0..<rows]) [0..<half]))
              = map C [0..<rows]"
    by (simp add: np_T_def C_def comp_def)
  have a1: "assign_cols 0 (map S [0..<rows]) (map R [0..<rows])
              = map (\<lambda>t. set_stride 0 (S t) (R t)) [0..<rows]"
    by (rule assign_cols_table)
  have a2: "assign_cols 1 (map C [0..<rows]) (map (\<lambda>t. set_stride 0 (S t) (R t)) [0..<rows])
              = map (\<lambda>t. set_stride 1 (C t) (set_stride 0 (S t) (R t))) [0..<rows]"
    by (rule assign_cols_table)
  have row: "map dtype (set_stride 1 (C t) (set_stride 0 (S t) (R t)))
               = map (table_entry r dtype D t) [0..<nat D]" for t
  proof -
    have "set_stride 1 (C t) (set_stride 0 (S t) (R t))
            = map (\<lambda>c. if even c then S t ! (c div 2) else C t ! (c div 2)) [0..<2 * half]"
      by (rule interleave_row) (simp_all add: S_def C_def R_def natD)
    then show ?thesis
      unfolding natD by (auto simp: table_entry_def S_def C_def)
  qed
  have tbl: "map (map dtype) (map (\<lambda>t. set_stride 1 (C t) (set_stride 0 (S t) (R t))) [0..<rows])
               = map (\<lambda>t. map (table_entry r dtype D t) [0..<nat D]) [0..<rows]"
    by (simp only: map_map o_def row)
  show ?thesis
    unfolding PositionEncoder_init_def D_def[symmetric] Let_def mesh prod.case emp sum.case
      half_def[symmetric] rows_def[symmetric] ang sinT cosT a1 a2 tbl
    by (rule refl)
qed

lemma PositionEncoder_init_error:
  fixes md :: int
  defines "D \<equiv> (if md mod 2 = 1 then md + 1 else md)"
  assumes "ms < 0 \<or> D < 0"
  shows "PositionEncoder_init r mem ms md dtype = Inl ValueError"
  using assms(2) unfolding PositionEncoder_init_def D_def[symmetric] Let_def
  by (simp add: np_empty_def split: prod.splits)

lemma rect_concat_length:
  "length (concat (map (\<lambda>t. map (f t) [0..<D]) [0..<n])) = n * D"
  by (induction n) simp_all

lemma rect_concat_slice:
  "t < n \<Longrightarrow> take D (drop (t * D) (concat (map (\<lambda>t. map (f t) [0..<D]) [0..<n]))) = map (f t) [0..<D]"
proof (induction n)
  case 0
  then show ?case by simp
next
  case (Suc n)
  show ?case
  proof (cases "t = n")
    case True
    then show ?thesis by (simp add: rect_concat_length)
  next
    case False
    with Suc.prems have t: "t < n" by simp
    then have "Suc t \<le> n" by simp
    then have "Suc t * D \<le> n * D" by (rule mult_le_mono1)
    then have le: "t * D + D \<le> n * D" by simp
    have "take D (drop (t * D) (concat (map (\<lambda>t. map (f t) [0..<D]) [0..<n]) @ map (f n) [0..<D]))
            = take D (drop (t * D) (concat (map (\<lambda>t. map (f t) [0..<D]) [0..<n])))"
      using le by (simp add: rect_concat_length)
    with Suc.IH[OF t] show ?thesis by simp
  qed
qed

lemma rect_concat_nth:
  assumes "t < n" "c < D"
  shows "concat (map (\<lambda>t. map (f t) [0..<D]) [0..<n]) ! (t * D + c) = f t c"
proof -
  let ?xs = "concat (map (\<lambda>t. map (f t) [0..<D]) [0..<n])"
  have "Suc t \<le> n" using assms(1) by simp
  then have "Suc t * D \<le> n * D" by (rule mult_le_mono1)
  then have "t * D + c < length ?xs"
    using assms(2) by (simp add: rect_concat_length)
  then have "take D (drop (t * D) ?xs) ! c = ?xs ! (t * D + c)"
    using assms(2) by simp
  with rect_concat_slice[OF assms(1), of D f] assms(2) show ?thesis by simp
qed

lemma singleton_tuples:
  "map (\<lambda>j. take 1 (drop (j * 1) ts)) [0..<length ts] = map (\<lambda>i. [i]) ts"
proof (rule nth_equalityI)
  show "length (map (\<lambda>j. take 1 (drop (j * 1) ts)) [0..<length ts]) = length (map (\<lambda>i. [i]) ts)"
    by simp
next
  fix j assume "j < length (map (\<lambda>j. take 1 (drop (j * 1) ts)) [0..<length ts])"
  then have j: "j < length ts" by simp
  then have "drop j ts = ts ! j # drop (Suc j) ts" by (simp add: Cons_nth_drop_Suc)
  then show "map (\<lambda>j. take 1 (drop (j * 1) ts)) [0..<length ts] ! j = map (\<lambda>i. [i]) ts ! j"
    using j by simp
qed

lemma gather_nd_rows:
  assumes "shape params = [n, D]" "length ts = prod_list outer"
  shows "gather_nd dev params \<lparr>shape = outer @ [1], data = ts\<rparr> =
     (if dev = CPU \<and> list_ex (\<lambda>i. \<not> (0 \<le> i \<and> i < int n)) ts then Inl InvalidArgumentError
      else Inr \<lparr>shape = outer @ [D],
                data = concat (map (\<lambda>i. if 0 \<le> i \<and> i < int n
                                          then take D (drop (nat i * D) (data params))
                                          else replicate D 0) ts)\<rparr>)"
proof -
  let ?ix = "\<lparr>shape = outer @ [1], data = ts\<rparr>"
  have r: "rev (shape ?ix) = 1 # rev outer" by simp
  have ok: "\<not> (shape params = [] \<or> length (shape params) < 1)" by (simp add: assms(1))
  have dims: "take 1 (shape params) = [n]" "drop 1 (shape params) = [D]"
    by (simp_all add: assms(1))
  have tup: "map (\<lambda>j. take 1 (drop (j * 1) (data ?ix))) [0..<prod_list (rev (rev outer))]
               = map (\<lambda>i. [i]) ts"
    using singleton_tuples[of ts] assms(2) by simp
  have ib: "in_bounds [i] [n] = (0 \<le> i \<and> i < int n)" for i
    by (simp add: in_bounds_def)
  have fi: "flat_index [i] [n] = nat i" for i
    by (simp add: flat_index_def)
  have ex: "list_ex (\<lambda>ix. \<not> in_bounds ix [n]) (map (\<lambda>i. [i]) ts)
              = list_ex (\<lambda>i. \<not> (0 \<le> i \<and> i < int n)) ts"
    by (simp add: list_ex_iff ib)
  have dat: "map (\<lambda>ix. if in_bounds ix [n]
                        then take (prod_list [D]) (drop (flat_index ix [n] * prod_list [D]) (data params))
                        else replicate (prod_list [D]) 0) (map (\<lambda>i. [i]) ts)
             = map (\<lambda>i. if 0 \<le> i \<and> i < int n
                          then take D (drop (nat i * D) (data params))
                          else replicate D 0) ts"
    by (simp add: ib fi comp_def)
  show ?thesis
    unfolding gather_nd_def r list.case if_not_P[OF ok] dims Let_def tup ex dat
    by simp
qed

lemma adjusted_dims_code: "(if md mod 2 = 1 then md + 1 else md) = adjusted_dims md"
  unfolding adjusted_dims_def by presburger

lemma init_constructed:
  assumes "PositionEncoder_init r mem ms md dtype = Inr enc"
  shows "0 \<le> ms" "0 \<le> adjusted_dims md"
    and "enc = \<lparr>positional_embedding =
                 \<lparr>shape = [nat ms, nat (adjusted_dims md)],
                  data = concat (map (\<lambda>t. map (table_entry r dtype (adjusted_dims md) t)
                                          [0..<nat (adjusted_dims md)]) [0..<nat ms])\<rparr>,
               max_steps = ms, max_dims = adjusted_dims md\<rparr>"
proof -
  have ok: "\<not> (ms < 0 \<or> adjusted_dims md < 0)"
  proof
    assume "ms < 0 \<or> adjusted_dims md < 0"
    then have "PositionEncoder_init r mem ms md dtype = Inl ValueError"
      using PositionEncoder_init_error[of ms md r mem dtype] by (simp add: adjusted_dims_code)
    with assms show False by simp
  qed
  then show "0 \<le> ms" "0 \<le> adjusted_dims md" by simp_all
  then show "enc = \<lparr>positional_embedding =
                 \<lparr>shape = [nat ms, nat (adjusted_dims md)],
                  data = concat (map (\<lambda>t. map (table_entry r dtype (adjusted_dims md) t)
                                          [0..<nat (adjusted_dims md)]) [0..<nat ms])\<rparr>,
               max_steps = ms, max_dims = adjusted_dims md\<rparr>"
    using PositionEncoder_init_table[of ms md r mem dtype] assms by (simp add: adjusted_dims_code)
qed

lemma init_succeeds:
  assumes "0 \<le> ms" "0 \<le> adjusted_dims md"
  shows "PositionEncoder_init r mem ms md dtype =
           Inr \<lparr>positional_embedding =
                 \<lparr>shape = [nat ms, nat (adjusted_dims md)],
                  data = concat (map (\<lambda>t. map (table_entry r dtype (adjusted_dims md) t)
                                          [0..<nat (adjusted_dims md)]) [0..<nat ms])\<rparr>,
               max_steps = ms, max_dims = adjusted_dims md\<rparr>"
  using PositionEncoder_init_table[of ms md r mem dtype] assms by (simp add: adjusted_dims_code)

lemma constructed_cell:
  assumes "PositionEncoder_init r mem ms md dtype = Inr enc" "t < nat ms" "c < nat (adjusted_dims md)"
  shows "cell (embedding enc) t c = table_entry r dtype (adjusted_dims md) t c"
  unfolding init_constructed(3)[OF assms(1)] embedding_def cell_def
  using rect_concat_nth[OF assms(2,3)] by simp

lemma constructed_row:
  assumes "PositionEncoder_init r mem ms md dtype = Inr enc" "t < nat ms"
  shows "table_row (embedding enc) t
           = map (table_entry r dtype (adjusted_dims md) t) [0..<nat (adjusted_dims md)]"
  unfolding init_constructed(3)[OF assms(1)] embedding_def table_row_def
  using rect_concat_slice[OF assms(2)] by simp

lemma constructed_shape:
  assumes "PositionEncoder_init r mem ms md dtype = Inr enc"
  shows "shape (embedding enc) = [nat ms, nat (adjusted_dims md)]"
    "length (data (embedding enc)) = nat ms * nat (adjusted_dims md)"
    "max_steps enc = ms" "max_dims enc = adjusted_dims md"
  unfolding init_constructed(3)[OF assms(1)] embedding_def
  by (simp_all add: rect_concat_length)

lemma call_rows:
  assumes "PositionEncoder_init r mem ms md dtype = Inr enc" "length ts = prod_list outer"
  shows "call dev enc \<lparr>shape = outer @ [1], data = ts\<rparr> =
     (if dev = CPU \<and> list_ex (\<lambda>i. \<not> (0 \<le> i \<and> i < max_steps enc)) ts then Inl InvalidArgumentError
      else Inr \<lparr>shape = outer @ [nat (max_dims enc)],
                data = concat (map (\<lambda>i. if 0 \<le> i \<and> i < max_steps enc
                                          then table_row (embedding enc) (nat i)
                                          else replicate (nat (max_dims enc)) 0) ts)\<rparr>)"
proof -
  note s = constructed_shape[OF assms(1)]
  have sh: "shape (positional_embedding enc) = [nat ms, nat (adjusted_dims md)]"
    using s(1) by (simp add: embedding_def)
  have ms: "0 \<le> ms" by (rule init_constructed(1)[OF assms(1)])
  have rng: "(0 \<le> i \<and> i < int (nat ms)) = (0 \<le> i \<and> i < ms)" for i
    using ms by auto
  have col: "[nat ms, nat (adjusted_dims md)] ! 1 = nat (adjusted_dims md)" by simp
  show ?thesis
    unfolding call_def gather_nd_rows[OF sh assms(2)] rng s(3,4) table_row_def embedding_def sh col
    by (rule refl)
qed


subsection \<open>The encoder of the examples\<close>

lemma table_entry_row_0:
  assumes "r 0 = 0" "r 1 = 1" "dtype 0 = 0" "dtype 1 = 1"
  shows "table_entry r dtype D 0 c = (if even c then 0 else 1)"
  by (simp add: table_entry_def angle_def assms)

lemma machine_row_0: "map (table_entry fl64 fl32 D 0) [0..<4] = [0, 1, 0, 1]"
proof -
  have "[0..<4] = [0, 1, 2, 3::nat]"
    by (simp add: upt_rec numeral_eq_Suc)
  then show ?thesis
    by (simp add: table_entry_row_0[OF fl64_0 fl64_one fl32_0 fl32_one])
qed

lemma machine_encoder:
  "\<exists>enc. PositionEncoder_init fl64 zero_mem 10 4 fl32 = Inr enc
         \<and> max_steps enc = 10 \<and> max_dims enc = 4
         \<and> shape (embedding enc) = [10, 4]
         \<and> table_row (embedding enc) 0 = [0, 1, 0, 1]
         \<and> cell (embedding enc) 0 1 = 1"
proof -
  have D: "adjusted_dims 4 = 4" by (simp add: adjusted_dims_def)
  obtain enc where enc: "PositionEncoder_init fl64 zero_mem 10 4 fl32 = Inr enc"
    using init_succeeds[of 10 4 fl64 zero_mem fl32] by (simp add: D)
  have row: "table_row (embedding enc) 0 = [0, 1, 0, 1]"
    using constructed_row[OF enc, of 0] by (simp add: D machine_row_0)
  have c: "cell (embedding enc) 0 1 = 1"
    using constructed_cell[OF enc, of 0 1]
    by (simp add: D table_entry_row_0[OF fl64_0 fl64_one fl32_0 fl32_one])
  from enc constructed_shape[OF enc] row c show ?thesis
    by (simp add: D)
qed

lemma gather_nd_pair:
  assumes "shape params = [n, D]" "0 \<le> i" "i < int n" "0 \<le> j" "j < int D"
  shows "gather_nd dev params \<lparr>shape = [2], data = [i, j]\<rparr>
           = Inr \<lparr>shape = [], data = take 1 (drop (nat i * D + nat j) (data params))\<rparr>"
proof -
  let ?ix = "\<lparr>shape = [2], data = [i, j]\<rparr>"
  have r: "rev (shape ?ix) = 2 # rev []" by simp
  have ok: "\<not> (shape params = [] \<or> length (shape params) < 2)" by (simp add: assms(1))
  have dims: "take 2 (shape params) = [n, D]" "drop 2 (shape params) = []"
    by (simp_all add: assms(1))
  have tup: "map (\<lambda>k. take 2 (drop (k * 2) (data ?ix))) [0..<prod_list (rev (rev []))] = [[i, j]]"
    by simp
  have ib: "in_bounds [i, j] [n, D]"
    using assms by (simp add: in_bounds_def)
  have fi: "flat_index [i, j] [n, D] = nat i * D + nat j"
    by (simp add: flat_index_def)
  show ?thesis
    unfolding gather_nd_def r list.case if_not_P[OF ok] dims Let_def tup
    by (simp add: ib fi)
qed

lemma embed_10_4:
  assumes "\<And>enc. PositionEncoder_init fl64 zero_mem 10 4 fl32 = Inr enc \<Longrightarrow> call dev enc ix = res"
  shows "StepEncoder_embed dev 10 4 ix = res"
proof -
  obtain enc where enc: "PositionEncoder_init fl64 zero_mem 10 4 fl32 = Inr enc"
    using machine_encoder by blast
  show ?thesis
    unfolding StepEncoder_embed_def enc sum.case by (rule assms[OF enc])
qed

lemma machine_constructed:
  assumes "PositionEncoder_init fl64 zero_mem 10 4 fl32 = Inr enc"
  shows "max_steps enc = 10" "max_dims enc = 4" "shape (embedding enc) = [10, 4]"
    "table_row (embedding enc) 0 = [0, 1, 0, 1]" "cell (embedding enc) 0 1 = 1"
  using machine_encoder assms by auto

lemma embed_nested_0:
  "StepEncoder_embed dev 10 4 \<lparr>shape = [1, 1], data = [0]\<rparr> = Inr \<lparr>shape = [1, 4], data = [0, 1, 0, 1]\<rparr>"
proof (rule embed_10_4)
  fix enc assume enc: "PositionEncoder_init fl64 zero_mem 10 4 fl32 = Inr enc"
  note m = machine_constructed[OF enc]
  show "call dev enc \<lparr>shape = [1, 1], data = [0]\<rparr> = Inr \<lparr>shape = [1, 4], data = [0, 1, 0, 1]\<rparr>"
    using call_rows[OF enc, of "[0]" "[1]" dev] by (simp add: m)
qed

lemma embed_flat_0:
  "StepEncoder_embed dev 10 4 \<lparr>shape = [1], data = [0]\<rparr> = Inr \<lparr>shape = [4], data = [0, 1, 0, 1]\<rparr>"
proof (rule embed_10_4)
  fix enc assume enc: "PositionEncoder_init fl64 zero_mem 10 4 fl32 = Inr enc"
  note m = machine_constructed[OF enc]
  show "call dev enc \<lparr>shape = [1], data = [0]\<rparr> = Inr \<lparr>shape = [4], data = [0, 1, 0, 1]\<rparr>"
    using call_rows[OF enc, of "[0]" "[]" dev] by (simp add: m)
qed

lemma embed_flat_pair:
  "StepEncoder_embed dev 10 4 \<lparr>shape = [2], data = [0, 1]\<rparr> = Inr \<lparr>shape = [], data = [1]\<rparr>"
proof (rule embed_10_4)
  fix enc assume enc: "PositionEncoder_init fl64 zero_mem 10 4 fl32 = Inr enc"
  note m = machine_constructed[OF enc]
  have sh: "shape (positional_embedding enc) = [10, 4]"
    using m(3) by (simp add: embedding_def)
  have len: "length (data (positional_embedding enc)) = 40"
    using constructed_shape(2)[OF enc] by (simp add: embedding_def adjusted_dims_def)
  have "data (positional_embedding enc) ! 1 = 1"
    using m(5) by (simp add: cell_def embedding_def sh)
  then have "take 1 (drop 1 (data (positional_embedding enc))) = [1]"
    using len by (simp add: take_Suc_conv_app_nth)
  then show "call dev enc \<lparr>shape = [2], data = [0, 1]\<rparr> = Inr \<lparr>shape = [], data = [1]\<rparr>"
    unfolding call_def using gather_nd_pair[OF sh, of 0 1 dev] by simp
qed


lemma table_entry_cast: "table_entry r dtype D t c = dtype (table_entry r exact D t c)"
  by (simp add: table_entry_def exact_def)

lemma angle_at_frequency_0:
  assumes "r 0 = 0" "r 1 = 1"
  shows "angle r D 1 0 = 1"
  by (simp add: angle_def assms)

lemma machine_entry_1_0: "table_entry fl64 exact 2 1 0 = 7579296827247854 / 2 ^ 53"
proof -
  have "angle fl64 2 (int 1) (int (0 div 2)) = 1"
    using angle_at_frequency_0[OF fl64_0 fl64_one] by simp
  then show ?thesis
    unfolding table_entry_def by (simp add: exact_def fl64_sin_1)
qed

section \<open>Lengths of the schedules\<close>

text \<open>
  In exact arithmetic the quotient \<open>(stop - start) / ((stop - start) / n)\<close> is \<open>n\<close>, and each
  of the three arrays has \<open>n\<close> elements.
\<close>

lemma schedule_lengths_exact:
  assumes "0 < n" "bs \<noteq> be" "gs \<noteq> ge"
  shows "schedule_lengths (compute_beta_alpha exact n bs be gs ge) = Inr (nat n, nat n, nat n)"
    and "schedule_lengths (compute_beta_alpha2 exact n bs be gs ge) = Inr (nat n, nat n, nat n)"
  unfolding compute_beta_alpha_exact[OF assms] compute_beta_alpha2_exact[OF assms(1,3)]
  by (simp_all add: schedule_lengths_def length_np_cumprod)

text \<open>
  In binary64 the step \<open>fl64 (d / n)\<close> can fall below \<open>d / n\<close>, the quotient \<open>fl64 (d / step)\<close>
  then lies one unit in the last place above \<open>n\<close>, and its ceiling is \<open>n + 1\<close>.
\<close>

lemma sine_49_lengths:
  "schedule_lengths (compute_beta_alpha2 fl64 49 (fl64 (1 / 10000)) (fl64 (1 / 5)) 0 (fl64 (1 / 10)))
     = Inr (50, 50, 49)"
proof -
  have u: "py_div fl64 1 49 = Inr (5882252574524729 / 2 ^ 58)"
    by (simp only: py_div_numeral fl64_ustep)
  have ulen: "nat \<lceil>fl64 (fl64 (1 - 0) / (5882252574524729 / 2 ^ 58))\<rceil> = 50"
    by (simp only: fl64_1 fl64_uquot ceiling_uquot)
  obtain us where us: "np_arange fl64 0 1 (5882252574524729 / 2 ^ 58) = Inr us" "length us = 50"
    using np_arange_length[of "5882252574524729 / 2 ^ 58" fl64 0 1] unfolding ulen by auto
  have g: "py_div fl64 (fl64 (fl64 (1 / 10) - 0)) 49 = Inr (588225257452473 / 2 ^ 58)"
    by (simp only: py_div_numeral fl64_gamma_end fl64_gamma_diff fl64_gstep49)
  have glen: "nat \<lceil>fl64 (fl64 (fl64 (1 / 10) - 0) / (588225257452473 / 2 ^ 58))\<rceil> = 49"
    by (simp only: fl64_gamma_end fl64_gamma_diff fl64_gquot49) simp
  obtain gs where gs: "np_arange fl64 0 (fl64 (1 / 10)) (588225257452473 / 2 ^ 58) = Inr gs" "length gs = 49"
    using np_arange_length[of "588225257452473 / 2 ^ 58" fl64 0 "fl64 (1 / 10)"] unfolding glen by auto
  show ?thesis
    using compute_beta_alpha2_parts[OF u us(1) g gs(1)] by (simp only: us(2) gs(2))
qed

lemma linear_99_lengths:
  "schedule_lengths (compute_beta_alpha fl64 99 (fl64 (1 / 10000)) (fl64 (1 / 5)) 0 (fl64 (1 / 10)))
     = Inr (100, 100, 99)"
proof -
  have b: "py_div fl64 (fl64 (fl64 (1 / 5) - fl64 (1 / 10000))) 99 = Inr (4655939571129469 / 2 ^ 61)"
    by (simp only: py_div_numeral fl64_beta_start fl64_beta_end fl64_beta_diff fl64_bstep99)
  have blen: "nat \<lceil>fl64 (fl64 (fl64 (1 / 5) - fl64 (1 / 10000)) / (4655939571129469 / 2 ^ 61))\<rceil> = 100"
    by (simp only: fl64_beta_start fl64_beta_end fl64_beta_diff fl64_bquot99 ceiling_bquot)
  obtain bs where bs: "np_arange fl64 (fl64 (1 / 10000)) (fl64 (1 / 5)) (4655939571129469 / 2 ^ 61) = Inr bs"
    "length bs = 100"
    using np_arange_length[of "4655939571129469 / 2 ^ 61" fl64 "fl64 (1 / 10000)" "fl64 (1 / 5)"]
    unfolding blen by auto
  have g: "py_div fl64 (fl64 (fl64 (1 / 10) - 0)) 99 = Inr (2329134352741105 / 2 ^ 61)"
    by (simp only: py_div_numeral fl64_gamma_end fl64_gamma_diff fl64_gstep99)
  have glen: "nat \<lceil>fl64 (fl64 (fl64 (1 / 10) - 0) / (2329134352741105 / 2 ^ 61))\<rceil> = 99"
    by (simp only: fl64_gamma_end fl64_gamma_diff fl64_gquot99) simp
  obtain gs where gs: "np_arange fl64 0 (fl64 (1 / 10)) (2329134352741105 / 2 ^ 61) = Inr gs" "length gs = 99"
    using np_arange_length[of "2329134352741105 / 2 ^ 61" fl64 0 "fl64 (1 / 10)"] unfolding glen by auto
  show ?thesis
    using compute_beta_alpha_parts[OF b bs(1) g gs(1)] by (simp only: bs(2) gs(2))
qed

text \<open>
  Claim C1. The claim is that for every positive \<open>n_steps\<close> and endpoints with
  \<open>beta_start < beta_end\<close> and \<open>gamma_start < gamma_end\<close> both schedules return three
  arrays of exactly \<open>n_steps\<close> elements. The code run on binary64 floats does not: with
  the endpoints \<open>0.0001\<close>, \<open>0.2\<close> and the default gamma endpoints \<open>0\<close>, \<open>0.1\<close>, the sine
  schedule called with \<open>n_steps = 49\<close> returns \<open>beta\<close> and \<open>alpha\<close> of 50 elements beside a
  \<open>sigma\<close> of 49, and the linear schedule called with \<open>n_steps = 99\<close> returns \<open>beta\<close> and
  \<open>alpha\<close> of 100 elements beside a \<open>sigma\<close> of 99.
\<close>

theorem schedule_lengths_binary64:
  "schedule_lengths (compute_beta_alpha2 fl64 49 (fl64 (1 / 10000)) (fl64 (1 / 5)) 0 (fl64 (1 / 10)))
     = Inr (50, 50, 49)
   \<and> schedule_lengths (compute_beta_alpha fl64 99 (fl64 (1 / 10000)) (fl64 (1 / 5)) 0 (fl64 (1 / 10)))
     = Inr (100, 100, 99)"
  using sine_49_lengths linear_99_lengths by (rule conjI)

section \<open>The cumulative retention factor\<close>



section \<open>The linear schedule\<close>






section \<open>The sine schedule\<close>





section \<open>The table of the position encoder\<close>



section \<open>The lookup\<close>

text \<open>
  Claim C4 (as amended). \<^verbatim>\<open>tf.gather_nd\<close> reads the last axis of its index tensor as an
  index tuple. For every constructed encoder and every index tensor of shape \<open>[..., 1]\<close>
  (each row selector wrapped in a one-element innermost vector) whose values lie in
  \<open>[0, max_steps)\<close>, the lookup returns a tensor of shape \<open>[..., D]\<close> holding the selected
  rows of the table in the order of the selectors. For \<open>max_steps = 10\<close>, \<open>max_dims = 4\<close>:
  \<open>embed([[0]])\<close> returns \<open>[[0, 1, 0, 1]]\<close>, and \<open>embed([0])\<close> returns the single row
  \<open>[0, 1, 0, 1]\<close>.
\<close>

theorem lookup_rows:
  "(PositionEncoder_init r mem ms md dtype = Inr enc \<and> length ts = prod_list outer
      \<and> list_all (\<lambda>i. 0 \<le> i \<and> i < max_steps enc) ts
    \<longrightarrow> call dev enc \<lparr>shape = outer @ [1], data = ts\<rparr>
          = Inr \<lparr>shape = outer @ [nat (max_dims enc)],
                  data = concat (map (\<lambda>i. table_row (embedding enc) (nat i)) ts)\<rparr>)
   \<and> StepEncoder_embed dev 10 4 \<lparr>shape = [1, 1], data = [0]\<rparr> = Inr \<lparr>shape = [1, 4], data = [0, 1, 0, 1]\<rparr>
   \<and> StepEncoder_embed dev 10 4 \<lparr>shape = [1], data = [0]\<rparr> = Inr \<lparr>shape = [4], data = [0, 1, 0, 1]\<rparr>"
proof (intro conjI impI)
  assume a: "PositionEncoder_init r mem ms md dtype = Inr enc \<and> length ts = prod_list outer
      \<and> list_all (\<lambda>i. 0 \<le> i \<and> i < max_steps enc) ts"
  then have enc: "PositionEncoder_init r mem ms md dtype = Inr enc"
    and len: "length ts = prod_list outer"
    and rng: "list_all (\<lambda>i. 0 \<le> i \<and> i < max_steps enc) ts"
    by simp_all
  have no: "\<not> list_ex (\<lambda>i. \<not> (0 \<le> i \<and> i < max_steps enc)) ts"
    using rng by (simp add: list_all_iff list_ex_iff)
  have same: "map (\<lambda>i. if 0 \<le> i \<and> i < max_steps enc then table_row (embedding enc) (nat i)
                        else replicate (nat (max_dims enc)) 0) ts
              = map (\<lambda>i. table_row (embedding enc) (nat i)) ts"
    using rng by (simp add: list_all_iff)
  show "call dev enc \<lparr>shape = outer @ [1], data = ts\<rparr>
          = Inr \<lparr>shape = outer @ [nat (max_dims enc)],
                  data = concat (map (\<lambda>i. table_row (embedding enc) (nat i)) ts)\<rparr>"
    unfolding call_rows[OF enc len] same using no by simp
next
  show "StepEncoder_embed dev 10 4 \<lparr>shape = [1, 1], data = [0]\<rparr> = Inr \<lparr>shape = [1, 4], data = [0, 1, 0, 1]\<rparr>"
    by (rule embed_nested_0)
next
  show "StepEncoder_embed dev 10 4 \<lparr>shape = [1], data = [0]\<rparr> = Inr \<lparr>shape = [4], data = [0, 1, 0, 1]\<rparr>"
    by (rule embed_flat_0)
qed

theorem lookup_rows_witness:
  "\<exists>enc. PositionEncoder_init fl64 zero_mem 10 4 fl32 = Inr enc
     \<and> length [3, 0, 7 :: int] = prod_list [3]
     \<and> list_all (\<lambda>i. 0 \<le> i \<and> i < max_steps enc) [3, 0, 7]
     \<and> call CPU enc \<lparr>shape = [3] @ [1], data = [3, 0, 7]\<rparr>
          = Inr \<lparr>shape = [3] @ [nat (max_dims enc)],
                  data = concat (map (\<lambda>i. table_row (embedding enc) (nat i)) [3, 0, 7])\<rparr>"
proof -
  obtain enc where enc: "PositionEncoder_init fl64 zero_mem 10 4 fl32 = Inr enc"
    using machine_encoder by blast
  have len: "length [3, 0, 7 :: int] = prod_list [3]" by simp
  have rng: "list_all (\<lambda>i. 0 \<le> i \<and> i < max_steps enc) [3, 0, 7]"
    by (simp add: machine_constructed(1)[OF enc])
  from lookup_rows[of fl64 zero_mem 10 4 fl32 enc "[3, 0, 7]" "[3]" CPU] enc len rng
  show ?thesis by blast
qed

text \<open>
  The claim as stated takes a flat sequence of indices and expects one row per index, and
  \<open>[[0, 1, 0, 1]]\<close> for \<open>embed([0])\<close>. A flat sequence is one index tuple: \<open>embed([0])\<close> has
  shape \<open>[4]\<close>, not \<open>[1, 4]\<close>, and \<open>embed([0, 1])\<close> is the single cell \<open>table[0][1]\<close>, not
  two rows.
\<close>

theorem lookup_flat_counterexample:
  "StepEncoder_embed CPU 10 4 \<lparr>shape = [1], data = [0]\<rparr> = Inr \<lparr>shape = [4], data = [0, 1, 0, 1]\<rparr>
   \<and> StepEncoder_embed CPU 10 4 \<lparr>shape = [1], data = [0]\<rparr> \<noteq> Inr \<lparr>shape = [1, 4], data = [0, 1, 0, 1]\<rparr>
   \<and> StepEncoder_embed CPU 10 4 \<lparr>shape = [2], data = [0, 1]\<rparr> = Inr \<lparr>shape = [], data = [1]\<rparr>"
  unfolding embed_flat_0 embed_flat_pair by simp

section \<open>Indices out of range\<close>




section \<open>The cast of the table\<close>

text \<open>
  Claim C10. With the default dtype, for every \<open>(max_steps, max_dims)\<close> that the
  constructor accepts and whatever the 64-bit arithmetic \<open>r\<close>, every value of the table
  (the accessor \<open>embedding\<close>) and every value a lookup returns is the rounding to 32 bits
  of the value the 64-bit computation gave. The rounding is not the identity on the table:
  for \<open>max_steps = max_dims = 2\<close> in binary64 the 64-bit value of row 1, column 0 is
  \<open>fl64 (sin 1) = 7579296827247854 / 2^53\<close>, and the table holds \<open>14117540 / 2^24\<close>.
\<close>

theorem table_values_are_cast:
  "(PositionEncoder_init r mem ms md fl32 = Inr enc \<and> t < nat (max_steps enc) \<and> c < nat (max_dims enc)
    \<longrightarrow> cell (embedding enc) t c = fl32 (table_entry r exact (max_dims enc) t c)
        \<and> call dev enc \<lparr>shape = [1], data = [int t]\<rparr>
            = Inr \<lparr>shape = [nat (max_dims enc)],
                    data = map (\<lambda>c. fl32 (table_entry r exact (max_dims enc) t c))
                             [0..<nat (max_dims enc)]\<rparr>)
   \<and> (\<exists>enc. PositionEncoder_init fl64 zero_mem 2 2 fl32 = Inr enc
          \<and> table_entry fl64 exact 2 1 0 = 7579296827247854 / 2 ^ 53
          \<and> cell (embedding enc) 1 0 = 14117540 / 2 ^ 24)"
proof (intro conjI impI)
  assume a: "PositionEncoder_init r mem ms md fl32 = Inr enc \<and> t < nat (max_steps enc)
               \<and> c < nat (max_dims enc)"
  then have enc: "PositionEncoder_init r mem ms md fl32 = Inr enc" by simp
  note s = constructed_shape[OF enc]
  from a have t: "t < nat ms" and c: "c < nat (adjusted_dims md)"
    by (simp_all add: s)
  show "cell (embedding enc) t c = fl32 (table_entry r exact (max_dims enc) t c)"
    using constructed_cell[OF enc t c] table_entry_cast[of r fl32] by (simp add: s)
  have rows: "table_row (embedding enc) t
                = map (\<lambda>c. fl32 (table_entry r exact (max_dims enc) t c)) [0..<nat (max_dims enc)]"
    using constructed_row[OF enc t] table_entry_cast[of r fl32] by (simp add: s)
  have rng: "0 \<le> int t \<and> int t < max_steps enc"
    using t by (simp add: s)
  show "call dev enc \<lparr>shape = [1], data = [int t]\<rparr>
            = Inr \<lparr>shape = [nat (max_dims enc)],
                    data = map (\<lambda>c. fl32 (table_entry r exact (max_dims enc) t c))
                             [0..<nat (max_dims enc)]\<rparr>"
    using call_rows[OF enc, of "[int t]" "[]" dev] rng by (simp add: rows)
next
  have D: "adjusted_dims 2 = 2" by (simp add: adjusted_dims_def)
  obtain enc where enc: "PositionEncoder_init fl64 zero_mem 2 2 fl32 = Inr enc"
    using init_succeeds[of 2 2 fl64 zero_mem fl32] by (simp add: D)
  have "cell (embedding enc) 1 0 = fl32 (table_entry fl64 exact 2 1 0)"
    using constructed_cell[OF enc, of 1 0] table_entry_cast[of fl64 fl32] by (simp add: D)
  then have "cell (embedding enc) 1 0 = 14117540 / 2 ^ 24"
    by (simp only: machine_entry_1_0 fl32_of_fl64_sin_1)
  with enc machine_entry_1_0
  show "\<exists>enc. PositionEncoder_init fl64 zero_mem 2 2 fl32 = Inr enc
          \<and> table_entry fl64 exact 2 1 0 = 7579296827247854 / 2 ^ 53
          \<and> cell (embedding enc) 1 0 = 14117540 / 2 ^ 24"
    by blast
qed

theorem table_values_are_cast_witness:
  "\<exists>enc. PositionEncoder_init fl64 zero_mem 10 4 fl32 = Inr enc
     \<and> 3 < nat (max_steps enc) \<and> 2 < nat (max_dims enc)
     \<and> cell (embedding enc) 3 2 = fl32 (table_entry fl64 exact (max_dims enc) 3 2)
     \<and> call CPU enc \<lparr>shape = [1], data = [int 3]\<rparr>
          = Inr \<lparr>shape = [nat (max_dims enc)],
                  data = map (\<lambda>c. fl32 (table_entry fl64 exact (max_dims enc) 3 c))
                           [0..<nat (max_dims enc)]\<rparr>"
proof -
  obtain enc where enc: "PositionEncoder_init fl64 zero_mem 10 4 fl32 = Inr enc"
    using machine_encoder by blast
  have h: "3 < nat (max_steps enc)" "2 < nat (max_dims enc)"
    by (simp_all add: machine_constructed[OF enc])
  from table_values_are_cast[of fl64 zero_mem 10 4 enc 3 2 CPU] enc h
  show ?thesis by blast
qed

section \<open>The image range converter\<close>



section \<open>Zero steps\<close>

text \<open>
  Claim C7 (as amended). Called with \<open>n_steps = 0\<close>, each schedule generator raises
  \<^verbatim>\<open>ZeroDivisionError\<close>, whatever the endpoints and the rounding: the step
  \<open>(beta_end - beta_start) / nsteps\<close> of the linear schedule and the step \<open>1.0 / nsteps\<close> of the
  sine schedule are Python divisions by the integer zero, evaluated before any array is
  built. No triple is returned.
\<close>

theorem zero_steps_raise:
  "compute_beta_alpha r 0 beta_start beta_end gamma_start gamma_end = Inl ZeroDivisionError
   \<and> compute_beta_alpha2 r 0 beta_start beta_end gamma_start gamma_end = Inl ZeroDivisionError"
  by (simp add: compute_beta_alpha_def compute_beta_alpha2_def py_div_def)

text \<open>
  The claim as stated fails at the default endpoints: the lengths of a returned triple
  cannot be read, because there is no triple.
\<close>

theorem zero_steps_counterexample:
  "schedule_lengths (compute_beta_alpha fl64 0 (fl64 (1 / 10000)) (fl64 (1 / 5)) 0 (fl64 (1 / 10)))
     = Inl ZeroDivisionError
   \<and> schedule_lengths (compute_beta_alpha2 fl64 0 (fl64 (1 / 10000)) (fl64 (1 / 5)) 0 (fl64 (1 / 10)))
     = Inl ZeroDivisionError"
  by (simp add: compute_beta_alpha_def compute_beta_alpha2_def py_div_def schedule_lengths_def)

end
